theory Spec2Isabelle
  imports Main
begin

section \<open>Minesweeper: the grid, its construction and the turn loop\<close>

text \<open>
  A shallow embedding of \<^verbatim>\<open>src/minesweeper.py\<close>. Python objects mutated in place
  become values passed through; every exception the code can raise is a value of
  \<open>py_error\<close> on the left of a sum. Integers are Python's unbounded \<open>int\<close>.
\<close>

subsection \<open>Python lists: indexing and \<^verbatim>\<open>range\<close>\<close>

datatype py_error = IndexError | ValueError | EOFError

text \<open>
  \<^verbatim>\<open>xs[i]\<close>: a negative index counts from the end, an index outside
  \<open>[-len, len)\<close> raises IndexError. \<open>py_norm_index\<close> gives the position that
  is read or written.
\<close>

definition py_norm_index :: "nat \<Rightarrow> int \<Rightarrow> py_error + nat" where
  "py_norm_index n i =
     (let j = (if i < 0 then int n + i else i)
      in if 0 \<le> j \<and> j < int n then Inr (nat j) else Inl IndexError)"

definition py_getitem :: "'a list \<Rightarrow> int \<Rightarrow> py_error + 'a" where
  "py_getitem xs i =
     (case py_norm_index (length xs) i of Inl e \<Rightarrow> Inl e | Inr j \<Rightarrow> Inr (xs ! j))"

text \<open>\<^verbatim>\<open>range(n)\<close> and \<^verbatim>\<open>range(a, b)\<close>; both are empty when the bound is not above the start.\<close>

definition py_range :: "int \<Rightarrow> int list" where
  "py_range n = [0..n - 1]"

definition py_range2 :: "int \<Rightarrow> int \<Rightarrow> int list" where
  "py_range2 a b = [a..b - 1]"

subsection \<open>\<^verbatim>\<open>random.sample\<close>\<close>

text \<open>
  \<^verbatim>\<open>random.sample(population, k)\<close> belongs to Python's standard library, not to the
  repository. It raises ValueError unless \<open>0 \<le> k \<le> len(population)\<close>, and otherwise
  returns \<open>k\<close> elements taken from \<open>k\<close> different positions of the population, in the
  order of selection. The module-level generator is made explicit as a tape \<open>rs\<close> of
  natural numbers: each selection reads one number of the tape (\<open>0\<close> once the tape is
  used up), takes the element at that position modulo the size of the remaining pool and
  removes that position from the pool.
\<close>

fun draw :: "nat list \<Rightarrow> 'a list \<Rightarrow> nat \<Rightarrow> 'a list" where
  "draw rs pool 0 = []"
| "draw rs pool (Suc k) =
     (if pool = [] then []
      else let j = (case rs of [] \<Rightarrow> 0 | r # _ \<Rightarrow> r) mod length pool
           in pool ! j # draw (tl rs) (take j pool @ drop (Suc j) pool) k)"

definition random_sample :: "nat list \<Rightarrow> 'a list \<Rightarrow> int \<Rightarrow> py_error + 'a list" where
  "random_sample rs population k =
     (if 0 \<le> k \<and> k \<le> int (length population)
      then Inr (draw rs population (nat k)) else Inl ValueError)"

subsection \<open>Cell\<close>

record cell =
  has_mine :: bool
  adjacent_mines_count :: int
  is_open :: bool

definition Cell :: "bool \<Rightarrow> int \<Rightarrow> cell" where
  \<comment> \<open>\<^verbatim>\<open>Cell.__init__\<close> with the default \<^verbatim>\<open>is_open=False\<close>\<close>
  "Cell m n = \<lparr>has_mine = m, adjacent_mines_count = n, is_open = False\<rparr>"

definition Cell_open :: "cell \<Rightarrow> cell" where
  "Cell_open c = c\<lparr>is_open := True\<rparr>"

definition unopened_non_mine :: "cell \<Rightarrow> bool" where
  "unopened_non_mine c = (is_open c = False \<and> has_mine c = False)"

text \<open>\<^verbatim>\<open>str(n)\<close> for an integer: decimal digits, with a minus sign when negative.\<close>

fun str_nat :: "nat \<Rightarrow> string" where
  "str_nat n =
     (if n < 10 then [''0123456789'' ! n]
      else str_nat (n div 10) @ [''0123456789'' ! (n mod 10)])"

definition str_int :: "int \<Rightarrow> string" where
  "str_int i = (if i < 0 then CHR ''-'' # str_nat (nat (- i)) else str_nat (nat i))"

definition Cell_str :: "cell \<Rightarrow> string" where
  \<comment> \<open>\<^verbatim>\<open>Cell.__str__\<close>\<close>
  "Cell_str c =
     (if is_open c
      then (if adjacent_mines_count c \<noteq> 0 then str_int (adjacent_mines_count c) else ''0'')
      else '' '')"

subsection \<open>Grid\<close>

text \<open>
  The rows of \<open>cells\<close> and the cells in them are created by a list comprehension, one
  fresh object each, so no two positions of the matrix share a cell and the matrix can be
  a value.
\<close>

record grid =
  width :: int
  height :: int
  cells :: "cell list list"
  mine_count :: int

type_synonym position = "int \<times> int"

definition create_empty_cells :: "int \<Rightarrow> int \<Rightarrow> cell list list" where
  "create_empty_cells w h = map (\<lambda>_. map (\<lambda>_. Cell False 0) (py_range w)) (py_range h)"

definition generate_grid_coordinate_positions :: "grid \<Rightarrow> position list" where
  "generate_grid_coordinate_positions g =
     concat (map (\<lambda>row. map (\<lambda>col. (row, col)) (py_range (width g))) (py_range (height g)))"

definition generate_mine_positions :: "nat list \<Rightarrow> grid \<Rightarrow> position list \<Rightarrow> py_error + position list" where
  "generate_mine_positions rs g coordinate_positions =
     random_sample rs coordinate_positions (mine_count g)"

text \<open>
  \<^verbatim>\<open>set(coordinate_positions) - set(mine_positions)\<close>. A Python set has no duplicates and
  an iteration order of its own; the model iterates in the order of
  \<open>coordinate_positions\<close> (lemma \<open>set_adjacent_mine_count_order\<close> below shows that the
  order does not matter to the loop that consumes it).
\<close>

definition identify_non_mine_positions :: "position list \<Rightarrow> position list \<Rightarrow> position list" where
  "identify_non_mine_positions coordinate_positions mine_positions =
     filter (\<lambda>p. p \<notin> set mine_positions) (remdups coordinate_positions)"

text \<open>\<^verbatim>\<open>self.cells[r][c].<field> = v\<close>: two index operations, then the cell is changed in place.\<close>

definition modify_cell :: "(cell \<Rightarrow> cell) \<Rightarrow> grid \<Rightarrow> int \<Rightarrow> int \<Rightarrow> py_error + grid" where
  "modify_cell f g r c =
     (case py_norm_index (length (cells g)) r of
        Inl e \<Rightarrow> Inl e
      | Inr i \<Rightarrow>
          (case py_norm_index (length (cells g ! i)) c of
             Inl e \<Rightarrow> Inl e
           | Inr j \<Rightarrow> Inr (g\<lparr>cells := (cells g)[i := (cells g ! i)[j := f (cells g ! i ! j)]]\<rparr>)))"

definition get_cell :: "grid \<Rightarrow> int \<Rightarrow> int \<Rightarrow> py_error + cell" where
  "get_cell g r c =
     (case py_getitem (cells g) r of Inl e \<Rightarrow> Inl e | Inr row \<Rightarrow> py_getitem row c)"

fun place_mines :: "grid \<Rightarrow> position list \<Rightarrow> py_error + grid" where
  "place_mines g [] = Inr g"
| "place_mines g ((row_index, column_index) # rest) =
     (case modify_cell (\<lambda>c. c\<lparr>has_mine := True\<rparr>) g row_index column_index of
        Inl e \<Rightarrow> Inl e
      | Inr g' \<Rightarrow> place_mines g' rest)"

definition is_valid_position :: "grid \<Rightarrow> int \<Rightarrow> int \<Rightarrow> bool" where
  "is_valid_position g row_index column_index =
     (0 \<le> row_index \<and> row_index < height g \<and> 0 \<le> column_index \<and> column_index < width g)"

text \<open>
  The two inner loops of \<^verbatim>\<open>_set_adjacent_mine_count\<close>: \<open>count\<close> is threaded through
  the nine positions of the 3x3 block around the cell. \<^verbatim>\<open>and\<close> is short-circuit, so the
  matrix is only read at a valid position.
\<close>

fun count_columns :: "grid \<Rightarrow> int \<Rightarrow> int list \<Rightarrow> int \<Rightarrow> py_error + int" where
  "count_columns g row_index [] count = Inr count"
| "count_columns g row_index (column_index # rest) count =
     (if is_valid_position g row_index column_index
      then (case get_cell g row_index column_index of
              Inl e \<Rightarrow> Inl e
            | Inr c \<Rightarrow> count_columns g row_index rest (if has_mine c then count + 1 else count))
      else count_columns g row_index rest count)"

fun count_rows :: "grid \<Rightarrow> int list \<Rightarrow> int \<Rightarrow> int \<Rightarrow> py_error + int" where
  "count_rows g [] empty_column_index count = Inr count"
| "count_rows g (row_index # rest) empty_column_index count =
     (case count_columns g row_index
             (py_range2 (empty_column_index - 1) (empty_column_index + 2)) count of
        Inl e \<Rightarrow> Inl e
      | Inr count' \<Rightarrow> count_rows g rest empty_column_index count')"

fun set_adjacent_mine_count :: "grid \<Rightarrow> position list \<Rightarrow> py_error + grid" where
  "set_adjacent_mine_count g [] = Inr g"
| "set_adjacent_mine_count g ((empty_row_index, empty_column_index) # rest) =
     (case count_rows g (py_range2 (empty_row_index - 1) (empty_row_index + 2))
             empty_column_index 0 of
        Inl e \<Rightarrow> Inl e
      | Inr count \<Rightarrow>
          (case modify_cell (\<lambda>c. c\<lparr>adjacent_mines_count := count\<rparr>) g
                  empty_row_index empty_column_index of
             Inl e \<Rightarrow> Inl e
           | Inr g' \<Rightarrow> set_adjacent_mine_count g' rest))"

definition set_cell_mines_and_adjacent_counts :: "nat list \<Rightarrow> grid \<Rightarrow> py_error + grid" where
  "set_cell_mines_and_adjacent_counts rs g =
     (let coordinate_positions = generate_grid_coordinate_positions g in
      case generate_mine_positions rs g coordinate_positions of
        Inl e \<Rightarrow> Inl e
      | Inr mine_positions \<Rightarrow>
          (case place_mines g mine_positions of
             Inl e \<Rightarrow> Inl e
           | Inr g' \<Rightarrow>
               set_adjacent_mine_count g'
                 (identify_non_mine_positions coordinate_positions mine_positions)))"

definition Grid :: "nat list \<Rightarrow> int \<Rightarrow> int \<Rightarrow> py_error + grid" where
  \<comment> \<open>\<^verbatim>\<open>Grid.__init__\<close>; \<^verbatim>\<open>//\<close> is floor division, as \<open>div\<close> on \<open>int\<close>\<close>
  "Grid rs w h =
     set_cell_mines_and_adjacent_counts rs
       \<lparr>width = w, height = h, cells = create_empty_cells w h, mine_count = (w * h) div 4\<rparr>"

text \<open>\<^verbatim>\<open>has_unopened_non_mines\<close>: two nested loops that return at the first hit.\<close>

primrec scan_row :: "cell list \<Rightarrow> bool" where
  "scan_row [] = False"
| "scan_row (c # row) = (if unopened_non_mine c then True else scan_row row)"

primrec scan_rows :: "cell list list \<Rightarrow> bool" where
  "scan_rows [] = False"
| "scan_rows (row # rows) = (if scan_row row then True else scan_rows rows)"

definition has_unopened_non_mines :: "grid \<Rightarrow> bool" where
  "has_unopened_non_mines g = scan_rows (cells g)"

definition is_cell_opened :: "grid \<Rightarrow> int \<Rightarrow> int \<Rightarrow> py_error + bool" where
  "is_cell_opened g row_index column_index =
     (case get_cell g row_index column_index of Inl e \<Rightarrow> Inl e | Inr c \<Rightarrow> Inr (is_open c))"

definition has_mine_at :: "grid \<Rightarrow> position \<Rightarrow> py_error + bool" where
  "has_mine_at g coordinate =
     (case get_cell g (fst coordinate) (snd coordinate) of
        Inl e \<Rightarrow> Inl e | Inr c \<Rightarrow> Inr (has_mine c))"

definition Grid_print :: "grid \<Rightarrow> string list list" where
  \<comment> \<open>the \<^verbatim>\<open>visible_row\<close> lists that \<^verbatim>\<open>Grid.print\<close> prints, top row first\<close>
  "Grid_print g = map (map Cell_str) (cells g)"

subsection \<open>Minesweeper: the turn loop\<close>

text \<open>
  The console is the only outside world of the game. What the player types is a list of
  tokens, one per call of \<^verbatim>\<open>int(input(prompt))\<close>: \<open>Some n\<close> when the line parses as the
  integer \<open>n\<close>, \<open>None\<close> when \<^verbatim>\<open>int\<close> raises ValueError (caught by the loop, which
  asks again). When no line is left \<^verbatim>\<open>input\<close> raises EOFError, which nothing
  catches. Printed text is not modelled, except that the final message of \<^verbatim>\<open>play\<close>
  is its outcome: \<open>Lost\<close> for "You lose", \<open>Won\<close> for "Hooray!! You won".
\<close>

datatype outcome = Won | Lost

type_synonym tokens = "int option list"

fun get_valid_coordinate :: "int \<Rightarrow> tokens \<Rightarrow> py_error + (int \<times> tokens)" where
  "get_valid_coordinate max_index [] = Inl EOFError"
| "get_valid_coordinate max_index (None # inp) = get_valid_coordinate max_index inp"
| "get_valid_coordinate max_index (Some coordinate # inp) =
     (if 0 \<le> coordinate \<and> coordinate \<le> max_index then Inr (coordinate, inp)
      else get_valid_coordinate max_index inp)"

lemma get_valid_coordinate_shorter:
  "get_valid_coordinate m inp = Inr (n, rest) \<Longrightarrow> length rest < length inp"
  by (induction m inp rule: get_valid_coordinate.induct) (auto split: if_splits)

text \<open>
  \<^verbatim>\<open>_get_user_guess\<close>: the x coordinate (a column, at most \<open>width - 1\<close>) is asked first,
  then the y coordinate (a row, at most \<open>height - 1\<close>); an opened cell is refused and
  both are asked again.
\<close>

function get_user_guess :: "grid \<Rightarrow> tokens \<Rightarrow> py_error + (position \<times> tokens)" where
  "get_user_guess g inp =
     (let max_row_index = width g - 1; max_col_index = height g - 1 in
      case get_valid_coordinate max_row_index inp of
        Inl e \<Rightarrow> Inl e
      | Inr (column_index, inp1) \<Rightarrow>
          (case get_valid_coordinate max_col_index inp1 of
             Inl e \<Rightarrow> Inl e
           | Inr (row_index, inp2) \<Rightarrow>
               (case is_cell_opened g row_index column_index of
                  Inl e \<Rightarrow> Inl e
                | Inr opened \<Rightarrow>
                    if opened then get_user_guess g inp2
                    else Inr ((row_index, column_index), inp2))))"
  by pat_completeness auto
termination
  apply (relation "measure (\<lambda>(g, inp). length inp)")
   apply simp
  apply (auto dest!: get_valid_coordinate_shorter)
  done

lemma get_user_guess_shorter:
  "get_user_guess g inp = Inr (p, rest) \<Longrightarrow> length rest < length inp"
proof (induction g inp rule: get_user_guess.induct)
  case (1 g inp)
  note eq = "1.prems" [unfolded get_user_guess.simps [of g inp] Let_def]
  from eq obtain c inp1 where c: "get_valid_coordinate (width g - 1) inp = Inr (c, inp1)"
    by (cases "get_valid_coordinate (width g - 1) inp") auto
  from eq c obtain r inp2 where r: "get_valid_coordinate (height g - 1) inp1 = Inr (r, inp2)"
    by (cases "get_valid_coordinate (height g - 1) inp1") auto
  from eq c r obtain opened where o: "is_cell_opened g r c = Inr opened"
    by (cases "is_cell_opened g r c") auto
  have len: "length inp2 < length inp"
    using get_valid_coordinate_shorter [OF c] get_valid_coordinate_shorter [OF r] by simp
  show ?case
  proof (cases opened)
    case True
    with eq c r o have "get_user_guess g inp2 = Inr (p, rest)" by simp
    with "1.IH" [OF refl refl c refl r refl o True]
    have "length rest < length inp2" by simp
    with len show ?thesis by simp
  next
    case False
    with eq c r o have "rest = inp2" by simp
    with len show ?thesis by simp
  qed
qed

declare get_user_guess.simps [simp del]

definition has_guessed_mine :: "grid \<Rightarrow> position \<Rightarrow> py_error + bool" where
  "has_guessed_mine g user_coordinate_guess = has_mine_at g user_coordinate_guess"

definition open_guess :: "grid \<Rightarrow> position \<Rightarrow> py_error + grid" where
  \<comment> \<open>\<^verbatim>\<open>self.grid.cells[guess.row][guess.column].open()\<close>\<close>
  "open_guess g user_coordinate_guess =
     modify_cell Cell_open g (fst user_coordinate_guess) (snd user_coordinate_guess)"

function play :: "grid \<Rightarrow> tokens \<Rightarrow> py_error + (outcome \<times> grid)" where
  "play g inp =
     (if has_unopened_non_mines g
      then (case get_user_guess g inp of
              Inl e \<Rightarrow> Inl e
            | Inr (user_coordinate_guess, inp') \<Rightarrow>
                (case has_guessed_mine g user_coordinate_guess of
                   Inl e \<Rightarrow> Inl e
                 | Inr guessed \<Rightarrow>
                     if guessed then Inr (Lost, g)
                     else (case open_guess g user_coordinate_guess of
                             Inl e \<Rightarrow> Inl e
                           | Inr g' \<Rightarrow> play g' inp')))
      else Inr (Won, g))"
  by pat_completeness auto
termination
  apply (relation "measure (\<lambda>(g, inp). length inp)")
   apply simp
  apply (auto dest!: get_user_guess_shorter)
  done

declare play.simps [simp del]

definition Minesweeper :: "nat list \<Rightarrow> int \<Rightarrow> int \<Rightarrow> py_error + grid" where
  \<comment> \<open>\<^verbatim>\<open>Minesweeper.__init__\<close>: the game object holds the grid and nothing else\<close>
  "Minesweeper rs w h = Grid rs w h"

subsection \<open>Notions used to state and prove the properties\<close>

text \<open>
  None of the following is code of the program. \<open>tabulate h w F\<close> is the matrix of
  \<open>h\<close> rows and \<open>w\<close> columns whose cell at \<open>(r, c)\<close> is \<open>F (r, c)\<close>; \<open>block r c\<close>
  lists the nine positions the counting loops visit around \<open>(r, c)\<close>.
  \<open>planted ms\<close> and \<open>counted g ms\<close> give the cell at each position after the mines
  \<open>ms\<close> are placed and after the counting pass. \<open>neighbouring_mines\<close> is the
  specification's count, written from its words and compared with what the loops store.
  \<open>open_all\<close> is a run of \<^verbatim>\<open>open\<close> operations, \<open>layout\<close> what the spec calls the
  topology of a grid (its dimensions, mines and counts).
\<close>

definition tabulate :: "int \<Rightarrow> int \<Rightarrow> (position \<Rightarrow> cell) \<Rightarrow> cell list list" where
  "tabulate h w F = map (\<lambda>r. map (\<lambda>c. F (r, c)) (py_range w)) (py_range h)"

definition tab :: "grid \<Rightarrow> (position \<Rightarrow> cell) \<Rightarrow> bool" where
  "tab g F \<longleftrightarrow> cells g = tabulate (height g) (width g) F"

definition valid_positions :: "grid \<Rightarrow> position set" where
  "valid_positions g = {p. is_valid_position g (fst p) (snd p)}"

definition block :: "int \<Rightarrow> int \<Rightarrow> position list" where
  "block r c = concat (map (\<lambda>r'. map (\<lambda>c'. (r', c')) (py_range2 (c - 1) (c + 2))) (py_range2 (r - 1) (r + 2)))"

definition block_count :: "grid \<Rightarrow> (position \<Rightarrow> cell) \<Rightarrow> position \<Rightarrow> int" where
  "block_count g F p =
     int (length (filter (\<lambda>q. is_valid_position g (fst q) (snd q) \<and> has_mine (F q))
                    (block (fst p) (snd p))))"

definition planted :: "position list \<Rightarrow> position \<Rightarrow> cell" where
  "planted ms p = (if p \<in> set ms then (Cell False 0)\<lparr>has_mine := True\<rparr> else Cell False 0)"

definition counted :: "grid \<Rightarrow> position list \<Rightarrow> position \<Rightarrow> cell" where
  "counted g ms p =
     (if p \<in> valid_positions g \<and> p \<notin> set ms
      then (planted ms p)\<lparr>adjacent_mines_count := block_count g (planted ms) p\<rparr>
      else planted ms p)"

definition empty_grid :: "int \<Rightarrow> int \<Rightarrow> grid" where
  "empty_grid w h =
     \<lparr>width = w, height = h, cells = create_empty_cells w h, mine_count = (w * h) div 4\<rparr>"

definition neighbour_offsets :: "(int \<times> int) list" where
  \<comment> \<open>the spec's eight offsets: \<open>{-1,0,1} x {-1,0,1}\<close> without \<open>(0,0)\<close>\<close>
  "neighbour_offsets = filter (\<lambda>d. d \<noteq> (0, 0)) (List.product [-1, 0, 1] [-1, 0, 1])"

definition in_bounds_neighbours :: "grid \<Rightarrow> int \<Rightarrow> int \<Rightarrow> position list" where
  \<comment> \<open>the neighbours of \<open>(r, c)\<close> inside \<open>[0,height) x [0,width)\<close>\<close>
  "in_bounds_neighbours g r c =
     filter (\<lambda>(r', c'). 0 \<le> r' \<and> r' < height g \<and> 0 \<le> c' \<and> c' < width g)
       (map (\<lambda>(dr, dc). (r + dr, c + dc)) neighbour_offsets)"

definition neighbouring_mines :: "grid \<Rightarrow> int \<Rightarrow> int \<Rightarrow> nat" where
  \<comment> \<open>the spec's count: the cells with a mine among the in-bounds neighbours\<close>
  "neighbouring_mines g r c =
     length (filter (\<lambda>(r', c'). has_mine (cells g ! nat r' ! nat c')) (in_bounds_neighbours g r c))"

fun open_all :: "grid \<Rightarrow> position list \<Rightarrow> py_error + grid" where
  "open_all g [] = Inr g"
| "open_all g (p # ps) = (case open_guess g p of Inl e \<Rightarrow> Inl e | Inr g' \<Rightarrow> open_all g' ps)"

definition layout :: "grid \<Rightarrow> int \<times> int \<times> int \<times> (bool \<times> int) list list" where
  "layout g = (width g, height g, mine_count g,
               map (map (\<lambda>c. (has_mine c, adjacent_mines_count c))) (cells g))"

definition mines_hold_zero :: "grid \<Rightarrow> bool" where
  "mines_hold_zero g \<longleftrightarrow>
     (\<forall>row \<in> set (cells g). \<forall>c \<in> set row. has_mine c \<longrightarrow> adjacent_mines_count c = 0)"

definition rectangular :: "grid \<Rightarrow> bool" where
  "rectangular g \<longleftrightarrow>
     length (cells g) = nat (height g) \<and> (\<forall>row \<in> set (cells g). length row = nat (width g))"

subsection \<open>Concrete states for the worked examples\<close>

definition fresh_2x2 :: grid where
  \<comment> \<open>a 2x2 grid as constructed, its mine at row 0, column 1\<close>
  "fresh_2x2 =
     \<lparr>width = 2, height = 2,
      cells = [[Cell False 1, Cell True 0], [Cell False 1, Cell False 1]],
      mine_count = 1\<rparr>"

definition cleared_2x2 :: grid where
  \<comment> \<open>the same grid once its three safe cells are opened\<close>
  "cleared_2x2 =
     \<lparr>width = 2, height = 2,
      cells = [[Cell_open (Cell False 1), Cell True 0],
               [Cell_open (Cell False 1), Cell_open (Cell False 1)]],
      mine_count = 1\<rparr>"

section \<open>Basic facts\<close>

lemma scan_row_iff: "scan_row row \<longleftrightarrow> (\<exists>c \<in> set row. unopened_non_mine c)"
  by (induction row) auto

lemma scan_rows_iff:
  "scan_rows rows \<longleftrightarrow> (\<exists>row \<in> set rows. \<exists>c \<in> set row. unopened_non_mine c)"
  by (induction rows) (auto simp: scan_row_iff)

lemma Cell_open_idem: "Cell_open (Cell_open c) = Cell_open c"
  by (simp add: Cell_open_def)

lemma Cell_open_id: "is_open c \<Longrightarrow> Cell_open c = c"
  by (simp add: Cell_open_def)

lemma py_norm_index_nonneg:
  "0 \<le> i \<Longrightarrow> i < int n \<Longrightarrow> py_norm_index n i = Inr (nat i)"
  by (simp add: py_norm_index_def)

lemma length_py_range [simp]: "length (py_range n) = nat n"
  by (simp add: py_range_def)

lemma nth_py_range [simp]: "i < nat n \<Longrightarrow> py_range n ! i = int i"
  by (simp add: py_range_def)

lemma set_py_range [simp]: "set (py_range n) = {0..<n}"
  by (auto simp: py_range_def)

lemma distinct_py_range [simp]: "distinct (py_range n)"
  by (simp add: py_range_def)

lemma length_tabulate [simp]: "length (tabulate h w F) = nat h"
  by (simp add: tabulate_def)

lemma nth_tabulate [simp]:
  "i < nat h \<Longrightarrow> tabulate h w F ! i = map (\<lambda>c. F (int i, c)) (py_range w)"
  by (simp add: tabulate_def)

lemma create_empty_cells_tabulate:
  "create_empty_cells w h = tabulate h w (\<lambda>_. Cell False 0)"
  by (simp add: create_empty_cells_def tabulate_def)

lemma tabulate_update:
  assumes "0 \<le> r" "r < h" "0 \<le> c" "c < w"
  shows "(tabulate h w F)[nat r := (tabulate h w F ! nat r)[nat c := v]] =
         tabulate h w (F((r, c) := v))"
proof (rule nth_equalityI)
  show "length ((tabulate h w F)[nat r := (tabulate h w F ! nat r)[nat c := v]]) =
        length (tabulate h w (F((r, c) := v)))" by simp
next
  fix i assume "i < length ((tabulate h w F)[nat r := (tabulate h w F ! nat r)[nat c := v]])"
  then have i: "i < nat h" by simp
  show "(tabulate h w F)[nat r := (tabulate h w F ! nat r)[nat c := v]] ! i =
        tabulate h w (F((r, c) := v)) ! i"
  proof (cases "i = nat r")
    case True
    have "(map (\<lambda>c. F (r, c)) (py_range w))[nat c := v] =
          map (\<lambda>c'. (F((r, c) := v)) (r, c')) (py_range w)"
      using assms by (auto intro!: nth_equalityI simp: nth_list_update)
    with True i assms show ?thesis by simp
  next
    case False
    with i assms show ?thesis by (auto simp: nth_list_update)
  qed
qed

lemma modify_cell_tab:
  assumes "tab g F" "is_valid_position g r c"
  shows "modify_cell f g r c = Inr (g\<lparr>cells := tabulate (height g) (width g) (F((r, c) := f (F (r, c))))\<rparr>)"
  using assms tabulate_update [of r "height g" c "width g" F "f (F (r, c))"]
  by (simp add: modify_cell_def tab_def is_valid_position_def py_norm_index_nonneg)

lemma get_cell_tab:
  assumes "tab g F" "is_valid_position g r c"
  shows "get_cell g r c = Inr (F (r, c))"
  using assms
  by (simp add: get_cell_def py_getitem_def tab_def is_valid_position_def py_norm_index_nonneg)

lemma tab_cells_update [simp]: "tab (g\<lparr>cells := tabulate (height g) (width g) F\<rparr>) F"
  by (simp add: tab_def)

lemma is_valid_position_cells_update [simp]:
  "is_valid_position (g\<lparr>cells := cs\<rparr>) r c = is_valid_position g r c"
  by (simp add: is_valid_position_def)

lemma valid_positions_cells_update [simp]:
  "valid_positions (g\<lparr>cells := cs\<rparr>) = valid_positions g"
  by (simp add: valid_positions_def)

lemma place_mines_tab:
  assumes "tab g F" "set ms \<subseteq> valid_positions g"
  shows "place_mines g ms =
         Inr (g\<lparr>cells := tabulate (height g) (width g)
                (\<lambda>p. if p \<in> set ms then (F p)\<lparr>has_mine := True\<rparr> else F p)\<rparr>)"
  using assms
proof (induction ms arbitrary: g F)
  case Nil
  then show ?case by (simp add: tab_def)
next
  case (Cons m ms)
  obtain r c where m: "m = (r, c)" by (cases m)
  let ?F = "F((r, c) := (F (r, c))\<lparr>has_mine := True\<rparr>)"
  let ?g = "g\<lparr>cells := tabulate (height g) (width g) ?F\<rparr>"
  from Cons.prems m have v: "is_valid_position g r c" by (simp add: valid_positions_def)
  have step: "modify_cell (\<lambda>c. c\<lparr>has_mine := True\<rparr>) g r c = Inr ?g"
    by (rule modify_cell_tab [OF Cons.prems(1) v])
  have t: "tab ?g ?F" by (simp add: tab_def)
  have sub: "set ms \<subseteq> valid_positions ?g" using Cons.prems(2) by simp
  have "place_mines ?g ms =
        Inr (?g\<lparr>cells := tabulate (height ?g) (width ?g)
               (\<lambda>p. if p \<in> set ms then (?F p)\<lparr>has_mine := True\<rparr> else ?F p)\<rparr>)"
    by (rule Cons.IH [OF t sub])
  moreover have "(\<lambda>p. if p \<in> set ms then (?F p)\<lparr>has_mine := True\<rparr> else ?F p) =
                 (\<lambda>p. if p \<in> set (m # ms) then (F p)\<lparr>has_mine := True\<rparr> else F p)"
    by (auto simp: m fun_eq_iff)
  ultimately show ?case by (simp add: m step)
qed

lemma count_columns_tab:
  assumes "tab g F"
  shows "count_columns g r cs n =
         Inr (n + int (length (filter (\<lambda>q. is_valid_position g (fst q) (snd q) \<and> has_mine (F q))
                                 (map (\<lambda>c'. (r, c')) cs))))"
  using assms by (induction cs arbitrary: n) (auto simp: get_cell_tab)

lemma count_rows_tab:
  assumes "tab g F"
  shows "count_rows g rs c n =
         Inr (n + int (length (filter (\<lambda>q. is_valid_position g (fst q) (snd q) \<and> has_mine (F q))
            (concat (map (\<lambda>r'. map (\<lambda>c'. (r', c')) (py_range2 (c - 1) (c + 2))) rs)))))"
  using assms by (induction rs arbitrary: n) (auto simp: count_columns_tab)

lemma count_rows_block:
  assumes "tab g F"
  shows "count_rows g (py_range2 (r - 1) (r + 2)) c 0 = Inr (block_count g F (r, c))"
  using assms by (simp add: count_rows_tab block_count_def block_def)

lemma block_count_cong:
  "(\<And>q. has_mine (F' q) = has_mine (F q)) \<Longrightarrow> block_count g F' p = block_count g F p"
  by (simp add: block_count_def)

lemma block_count_cells_update [simp]:
  "block_count (g\<lparr>cells := cs\<rparr>) F p = block_count g F p"
  by (simp add: block_count_def)

lemma set_adjacent_mine_count_tab:
  assumes "tab g F" "set ps \<subseteq> valid_positions g"
  shows "set_adjacent_mine_count g ps =
         Inr (g\<lparr>cells := tabulate (height g) (width g)
                (\<lambda>p. if p \<in> set ps then (F p)\<lparr>adjacent_mines_count := block_count g F p\<rparr>
                     else F p)\<rparr>)"
  using assms
proof (induction ps arbitrary: g F)
  case Nil
  then show ?case by (simp add: tab_def)
next
  case (Cons m ps)
  obtain r c where m: "m = (r, c)" by (cases m)
  let ?n = "block_count g F (r, c)"
  let ?F = "F((r, c) := (F (r, c))\<lparr>adjacent_mines_count := ?n\<rparr>)"
  let ?g = "g\<lparr>cells := tabulate (height g) (width g) ?F\<rparr>"
  from Cons.prems m have v: "is_valid_position g r c" by (simp add: valid_positions_def)
  have cnt: "count_rows g (py_range2 (r - 1) (r + 2)) c 0 = Inr ?n"
    by (rule count_rows_block [OF Cons.prems(1)])
  have step: "modify_cell (\<lambda>c. c\<lparr>adjacent_mines_count := ?n\<rparr>) g r c = Inr ?g"
    by (rule modify_cell_tab [OF Cons.prems(1) v])
  have bc: "block_count g ?F p = block_count g F p" for p
    by (rule block_count_cong) simp
  have t: "tab ?g ?F" by (simp add: tab_def)
  have sub: "set ps \<subseteq> valid_positions ?g" using Cons.prems(2) by simp
  have "set_adjacent_mine_count ?g ps =
        Inr (?g\<lparr>cells := tabulate (height ?g) (width ?g)
               (\<lambda>p. if p \<in> set ps then (?F p)\<lparr>adjacent_mines_count := block_count ?g ?F p\<rparr>
                    else ?F p)\<rparr>)"
    by (rule Cons.IH [OF t sub])
  moreover have "(\<lambda>p. if p \<in> set ps then (?F p)\<lparr>adjacent_mines_count := block_count ?g ?F p\<rparr>
                    else ?F p) =
                 (\<lambda>p. if p \<in> set (m # ps) then (F p)\<lparr>adjacent_mines_count := block_count g F p\<rparr>
                    else F p)"
    by (auto simp: m fun_eq_iff bc)
  ultimately show ?case by (simp add: m cnt step)
qed

text \<open>
  The counting pass gives the same grid in whatever order (and however often) the
  positions are visited, so the iteration order of the Python set is immaterial.
\<close>

lemma set_adjacent_mine_count_order:
  assumes "tab g F" and "set ps \<subseteq> valid_positions g" and "set qs = set ps"
  shows "set_adjacent_mine_count g qs = set_adjacent_mine_count g ps"
proof -
  from assms(2,3) have "set qs \<subseteq> valid_positions g" by simp
  from set_adjacent_mine_count_tab [OF assms(1) this]
    set_adjacent_mine_count_tab [OF assms(1,2)] assms(3)
  show ?thesis by simp
qed

lemma remove_position:
  assumes "j < length xs"
  shows "length (take j xs @ drop (Suc j) xs) = length xs - 1"
    and "set (take j xs @ drop (Suc j) xs) \<subseteq> set xs"
    and "distinct xs \<Longrightarrow> distinct (take j xs @ drop (Suc j) xs)"
    and "distinct xs \<Longrightarrow> xs ! j \<notin> set (take j xs @ drop (Suc j) xs)"
proof -
  show "length (take j xs @ drop (Suc j) xs) = length xs - 1"
    using assms by simp
  show "set (take j xs @ drop (Suc j) xs) \<subseteq> set xs"
    using set_take_subset [of j xs] set_drop_subset [of "Suc j" xs] by auto
  have xs: "xs = take j xs @ xs ! j # drop (Suc j) xs"
    using assms by (rule id_take_nth_drop)
  assume "distinct xs"
  then have "distinct (take j xs @ xs ! j # drop (Suc j) xs)"
    using xs by simp
  then show "distinct (take j xs @ drop (Suc j) xs)"
    and "xs ! j \<notin> set (take j xs @ drop (Suc j) xs)"
    by auto
qed

lemma length_draw: "length (draw rs pool k) = min k (length pool)"
proof (induction rs pool k rule: draw.induct)
  case (2 rs pool k)
  show ?case
  proof (cases "pool = []")
    case False
    let ?j = "(case rs of [] \<Rightarrow> 0 | r # _ \<Rightarrow> r) mod length pool"
    from False have j: "?j < length pool" by simp
    have eq: "draw rs pool (Suc k) = pool ! ?j # draw (tl rs) (take ?j pool @ drop (Suc ?j) pool) k"
      using False by (simp add: Let_def)
    from False obtain n where n: "length pool = Suc n" by (cases pool) auto
    have "length (take ?j pool @ drop (Suc ?j) pool) = n"
      using remove_position(1) [OF j] n by simp
    with "2.IH" [OF False refl]
    have "length (draw (tl rs) (take ?j pool @ drop (Suc ?j) pool) k) = min k n" by simp
    then show ?thesis unfolding eq n by simp
  qed simp
qed simp

lemma set_draw: "set (draw rs pool k) \<subseteq> set pool"
proof (induction rs pool k rule: draw.induct)
  case (2 rs pool k)
  show ?case
  proof (cases "pool = []")
    case False
    let ?j = "(case rs of [] \<Rightarrow> 0 | r # _ \<Rightarrow> r) mod length pool"
    from False have j: "?j < length pool" by simp
    have a: "pool ! ?j \<in> set pool" using j by (rule nth_mem)
    have eq: "draw rs pool (Suc k) = pool ! ?j # draw (tl rs) (take ?j pool @ drop (Suc ?j) pool) k"
      using False by (simp add: Let_def)
    from "2.IH" [OF False refl] remove_position(2) [OF j] a
    show ?thesis unfolding eq by auto
  qed simp
qed simp

lemma distinct_draw: "distinct pool \<Longrightarrow> distinct (draw rs pool k)"
proof (induction rs pool k rule: draw.induct)
  case (2 rs pool k)
  show ?case
  proof (cases "pool = []")
    case False
    let ?j = "(case rs of [] \<Rightarrow> 0 | r # _ \<Rightarrow> r) mod length pool"
    let ?rest = "take ?j pool @ drop (Suc ?j) pool"
    from False have j: "?j < length pool" by simp
    have eq: "draw rs pool (Suc k) = pool ! ?j # draw (tl rs) ?rest k"
      using False by (simp add: Let_def)
    have dr: "distinct ?rest" by (rule remove_position(3) [OF j "2.prems"])
    have "pool ! ?j \<notin> set (draw (tl rs) ?rest k)"
      using set_draw [of "tl rs" ?rest k] remove_position(4) [OF j "2.prems"] by blast
    moreover have "distinct (draw (tl rs) ?rest k)"
      by (rule "2.IH" [OF False refl dr])
    ultimately show ?thesis unfolding eq by simp
  qed simp
qed simp

lemma coordinate_positions_product:
  "generate_grid_coordinate_positions g =
   List.product (py_range (height g)) (py_range (width g))"
proof -
  have "concat (map (\<lambda>row. map (\<lambda>col. (row, col)) cs) rs) = List.product rs cs"
    for rs cs :: "int list"
    by (induction rs) simp_all
  then show ?thesis by (simp add: generate_grid_coordinate_positions_def)
qed

lemma set_coordinate_positions:
  "set (generate_grid_coordinate_positions g) = valid_positions g"
  by (auto simp: coordinate_positions_product valid_positions_def is_valid_position_def)

lemma distinct_coordinate_positions:
  "distinct (generate_grid_coordinate_positions g)"
  by (simp add: coordinate_positions_product distinct_product)

lemma length_coordinate_positions:
  "length (generate_grid_coordinate_positions g) = nat (height g) * nat (width g)"
  by (simp add: coordinate_positions_product)

lemma concat_tabulate:
  "concat (tabulate (height g) (width g) F) = map F (generate_grid_coordinate_positions g)"
  by (simp add: tabulate_def generate_grid_coordinate_positions_def map_concat comp_def)

lemma empty_grid_simps [simp]:
  "width (empty_grid w h) = w" "height (empty_grid w h) = h"
  "mine_count (empty_grid w h) = (w * h) div 4"
  "cells (empty_grid w h) = tabulate h w (\<lambda>_. Cell False 0)"
  by (simp_all add: empty_grid_def create_empty_cells_tabulate)

lemma valid_positions_empty_grid:
  "valid_positions (empty_grid w h) = {p. 0 \<le> fst p \<and> fst p < h \<and> 0 \<le> snd p \<and> snd p < w}"
  by (simp add: valid_positions_def is_valid_position_def)

lemma set_identify_non_mine_positions:
  "set (identify_non_mine_positions cps ms) = set cps - set ms"
  by (auto simp: identify_non_mine_positions_def)

lemma set_cell_mines_and_adjacent_counts_Inr:
  assumes t: "tab g (\<lambda>_. Cell False 0)"
    and s: "random_sample rs (generate_grid_coordinate_positions g) (mine_count g) = Inr ms"
  shows "set_cell_mines_and_adjacent_counts rs g =
         Inr (g\<lparr>cells := tabulate (height g) (width g) (counted g ms)\<rparr>)"
proof -
  let ?cps = "generate_grid_coordinate_positions g"
  let ?g1 = "g\<lparr>cells := tabulate (height g) (width g) (planted ms)\<rparr>"
  let ?nm = "identify_non_mine_positions ?cps ms"
  from s have ms: "ms = draw rs ?cps (nat (mine_count g))"
    by (auto simp: random_sample_def split: if_splits)
  have sub: "set ms \<subseteq> valid_positions g"
    unfolding ms using set_draw [of rs ?cps] by (simp add: set_coordinate_positions)
  have 1: "place_mines g ms = Inr ?g1"
    using place_mines_tab [OF t sub] by (simp add: planted_def [abs_def])
  have t1: "tab ?g1 (planted ms)" by (simp add: tab_def)
  have nm: "set ?nm \<subseteq> valid_positions ?g1"
    by (auto simp: set_identify_non_mine_positions set_coordinate_positions)
  have "(\<lambda>p. if p \<in> set ?nm
              then (planted ms p)\<lparr>adjacent_mines_count := block_count ?g1 (planted ms) p\<rparr>
              else planted ms p) = counted g ms"
    by (auto simp: fun_eq_iff counted_def set_identify_non_mine_positions
        set_coordinate_positions)
  with set_adjacent_mine_count_tab [OF t1 nm]
  have 2: "set_adjacent_mine_count ?g1 ?nm =
           Inr (g\<lparr>cells := tabulate (height g) (width g) (counted g ms)\<rparr>)"
    by simp
  show ?thesis
    by (simp add: set_cell_mines_and_adjacent_counts_def generate_mine_positions_def s 1 2)
qed

lemma Grid_Inr:
  assumes "random_sample rs (generate_grid_coordinate_positions (empty_grid w h)) ((w * h) div 4)
           = Inr ms"
  shows "Grid rs w h = Inr ((empty_grid w h)\<lparr>cells := tabulate h w (counted (empty_grid w h) ms)\<rparr>)"
proof -
  have t: "tab (empty_grid w h) (\<lambda>_. Cell False 0)" by (simp add: tab_def)
  from set_cell_mines_and_adjacent_counts_Inr [OF t] assms
  show ?thesis by (simp add: Grid_def empty_grid_def [symmetric])
qed

lemma Grid_Inl:
  assumes "random_sample rs (generate_grid_coordinate_positions (empty_grid w h)) ((w * h) div 4)
           = Inl e"
  shows "Grid rs w h = Inl e"
  using assms
  by (simp add: Grid_def empty_grid_def [symmetric] set_cell_mines_and_adjacent_counts_def
      generate_mine_positions_def)

lemma tabulate_nth_nth:
  "0 \<le> r \<Longrightarrow> r < h \<Longrightarrow> 0 \<le> c \<Longrightarrow> c < w \<Longrightarrow> tabulate h w F ! nat r ! nat c = F (r, c)"
  by simp

lemma length_filter_member:
  assumes "distinct xs" "distinct ys" "set ys \<subseteq> set xs"
  shows "length (filter (\<lambda>p. p \<in> set ys) xs) = length ys"
proof -
  have "length (filter (\<lambda>p. p \<in> set ys) xs) = card (set (filter (\<lambda>p. p \<in> set ys) xs))"
    by (rule distinct_card [symmetric]) (simp add: assms(1))
  also have "set (filter (\<lambda>p. p \<in> set ys) xs) = set ys" using assms(3) by auto
  also have "card (set ys) = length ys" using assms(2) by (rule distinct_card)
  finally show ?thesis .
qed

lemma has_mine_planted [simp]: "has_mine (planted ms p) = (p \<in> set ms)"
  by (simp add: planted_def Cell_def)

lemma has_mine_counted [simp]: "has_mine (counted g ms p) = (p \<in> set ms)"
  by (simp add: counted_def)

lemma is_open_counted [simp]: "is_open (counted g ms p) = False"
  by (simp add: counted_def planted_def Cell_def)

lemma count_counted:
  "adjacent_mines_count (counted g ms p) =
     (if p \<in> valid_positions g \<and> p \<notin> set ms then block_count g (planted ms) p else 0)"
  by (simp add: counted_def planted_def Cell_def)

lemma sample_positive:
  assumes "0 < w" "0 < h"
  shows "random_sample rs (generate_grid_coordinate_positions (empty_grid w h)) ((w * h) div 4) =
         Inr (draw rs (generate_grid_coordinate_positions (empty_grid w h)) (nat ((w * h) div 4)))"
    and "int (length (draw rs (generate_grid_coordinate_positions (empty_grid w h))
            (nat ((w * h) div 4)))) = (w * h) div 4"
proof -
  let ?cps = "generate_grid_coordinate_positions (empty_grid w h)"
  from assms have wh: "0 < w * h" by simp
  have len: "int (length ?cps) = w * h"
    using assms by (simp add: length_coordinate_positions mult.commute)
  have k0: "0 \<le> (w * h) div 4" using wh by simp
  have k1: "(w * h) div 4 \<le> w * h" using wh by simp
  show "random_sample rs ?cps ((w * h) div 4) = Inr (draw rs ?cps (nat ((w * h) div 4)))"
    using k0 k1 len by (simp add: random_sample_def)
  have "nat ((w * h) div 4) \<le> length ?cps" using k1 len by linarith
  then show "int (length (draw rs ?cps (nat ((w * h) div 4)))) = (w * h) div 4"
    using k0 by (simp add: length_draw min_def)
qed

lemma py_range2_three: "py_range2 (i - 1) (i + 2) = [i - 1, i, i + 1]"
  by (simp add: py_range2_def upto_rec1)

lemma block_eq:
  "block r c = [(r - 1, c - 1), (r - 1, c), (r - 1, c + 1)] @ (r, c - 1) # (r, c) #
               [(r, c + 1), (r + 1, c - 1), (r + 1, c), (r + 1, c + 1)]"
  by (simp add: block_def py_range2_three)

lemma neighbours_eq:
  "map (\<lambda>(dr, dc). (r + dr, c + dc)) neighbour_offsets =
   [(r - 1, c - 1), (r - 1, c), (r - 1, c + 1)] @ (r, c - 1) #
   [(r, c + 1), (r + 1, c - 1), (r + 1, c), (r + 1, c + 1)]"
  by (simp add: neighbour_offsets_def)

lemma block_neighbours:
  assumes "\<not> P (r, c)"
  shows "filter P (block r c) = filter P (map (\<lambda>(dr, dc). (r + dr, c + dc)) neighbour_offsets)"
  unfolding block_eq neighbours_eq using assms by simp

lemma coordinate_positions_empty:
  "w \<le> 0 \<or> h \<le> 0 \<Longrightarrow> generate_grid_coordinate_positions (empty_grid w h) = []"
proof -
  assume "w \<le> 0 \<or> h \<le> 0"
  then have "length (generate_grid_coordinate_positions (empty_grid w h)) = 0"
    by (auto simp: length_coordinate_positions)
  then show ?thesis by simp
qed

lemma tabulate_no_cells:
  "w \<le> 0 \<or> h \<le> 0 \<Longrightarrow> tabulate h w F = replicate (nat h) []"
  by (auto simp: tabulate_def py_range_def map_replicate_const)

lemma Grid_positive:
  assumes "0 < w" "0 < h"
  shows "\<exists>g. Grid rs w h = Inr g"
  using Grid_Inr [OF sample_positive(1) [OF assms]] by blast

lemma Grid_tape_cong:
  assumes "draw rs (generate_grid_coordinate_positions (empty_grid w h)) (nat ((w * h) div 4)) =
           draw rs' (generate_grid_coordinate_positions (empty_grid w h)) (nat ((w * h) div 4))"
  shows "Grid rs w h = Grid rs' w h"
  using assms
  by (simp add: Grid_def empty_grid_def [symmetric] set_cell_mines_and_adjacent_counts_def
      generate_mine_positions_def random_sample_def Let_def)

lemma draw_one:
  "pool \<noteq> [] \<Longrightarrow> draw rs pool (Suc 0) = draw [(case rs of [] \<Rightarrow> 0 | r # _ \<Rightarrow> r) mod length pool] pool (Suc 0)"
  by (simp add: Let_def)

lemma Grid_2x2_tape:
  "\<exists>j < 4. Grid rs 2 2 = Grid [j] 2 2"
proof -
  let ?cps = "generate_grid_coordinate_positions (empty_grid 2 2)"
  let ?j = "(case rs of [] \<Rightarrow> 0 | r # _ \<Rightarrow> r) mod length ?cps"
  have len: "length ?cps = 4" by (simp add: length_coordinate_positions)
  then have ne: "?cps \<noteq> []" by auto
  have k: "nat ((2 * 2) div 4 :: int) = Suc 0" by simp
  have "Grid rs 2 2 = Grid [?j] 2 2"
    by (rule Grid_tape_cong) (simp only: k draw_one [OF ne, of rs])
  moreover have "?j < 4" by (simp add: len)
  ultimately show ?thesis by blast
qed

lemma below_four: "j < 4 \<Longrightarrow> j = 0 \<or> j = Suc 0 \<or> j = 2 \<or> j = (3::nat)"
  by arith

lemma Grid_2x2_layouts:
  "Grid [0] 2 2 = Inr \<lparr>width = 2, height = 2,
      cells = [[Cell True 0, Cell False 1], [Cell False 1, Cell False 1]], mine_count = 1\<rparr>"
  "Grid [Suc 0] 2 2 = Inr \<lparr>width = 2, height = 2,
      cells = [[Cell False 1, Cell True 0], [Cell False 1, Cell False 1]], mine_count = 1\<rparr>"
  "Grid [2] 2 2 = Inr \<lparr>width = 2, height = 2,
      cells = [[Cell False 1, Cell False 1], [Cell True 0, Cell False 1]], mine_count = 1\<rparr>"
  "Grid [3] 2 2 = Inr \<lparr>width = 2, height = 2,
      cells = [[Cell False 1, Cell False 1], [Cell False 1, Cell True 0]], mine_count = 1\<rparr>"
  by code_simp+

lemma py_norm_index_less: "py_norm_index n i = Inr k \<Longrightarrow> k < n"
  by (auto simp: py_norm_index_def Let_def split: if_splits)

lemma modify_cell_Inr:
  assumes "modify_cell f g r c = Inr g'"
  obtains i j where "i < length (cells g)" "j < length (cells g ! i)"
    "py_norm_index (length (cells g)) r = Inr i"
    "py_norm_index (length (cells g ! i)) c = Inr j"
    "g' = g\<lparr>cells := (cells g)[i := (cells g ! i)[j := f (cells g ! i ! j)]]\<rparr>"
proof -
  from assms obtain i where i: "py_norm_index (length (cells g)) r = Inr i"
    by (cases "py_norm_index (length (cells g)) r") (auto simp: modify_cell_def)
  from assms i obtain j where j: "py_norm_index (length (cells g ! i)) c = Inr j"
    by (cases "py_norm_index (length (cells g ! i)) c") (auto simp: modify_cell_def)
  from assms i j
  have "g' = g\<lparr>cells := (cells g)[i := (cells g ! i)[j := f (cells g ! i ! j)]]\<rparr>"
    by (simp add: modify_cell_def)
  with that py_norm_index_less [OF i] py_norm_index_less [OF j] i j show thesis by blast
qed

lemma map_map_update:
  assumes "i < length xss" "j < length (xss ! i)" "h (f (xss ! i ! j)) = h (xss ! i ! j)"
  shows "map (map h) (xss[i := (xss ! i)[j := f (xss ! i ! j)]]) = map (map h) xss"
proof -
  have "map h ((xss ! i)[j := f (xss ! i ! j)]) = map h (xss ! i)"
    using assms(2,3) by (simp add: map_update list_update_same_conv)
  then show ?thesis
    using assms(1) by (simp add: map_update list_update_same_conv)
qed

lemma modify_cell_layout:
  assumes "modify_cell f g r c = Inr g'"
    and "\<And>x. has_mine (f x) = has_mine x"
    and "\<And>x. adjacent_mines_count (f x) = adjacent_mines_count x"
  shows "layout g' = layout g"
proof -
  from assms(1) obtain i j where ij: "i < length (cells g)" "j < length (cells g ! i)"
    and g': "g' = g\<lparr>cells := (cells g)[i := (cells g ! i)[j := f (cells g ! i ! j)]]\<rparr>"
    by (rule modify_cell_Inr)
  show ?thesis
    unfolding layout_def g' using map_map_update [OF ij, of "\<lambda>c. (has_mine c, adjacent_mines_count c)" f]
    by (simp add: assms(2,3))
qed

lemma open_guess_layout: "open_guess g p = Inr g' \<Longrightarrow> layout g' = layout g"
  unfolding open_guess_def by (erule modify_cell_layout) (simp_all add: Cell_open_def)

lemma open_all_layout: "open_all g ps = Inr g' \<Longrightarrow> layout g' = layout g"
proof (induction ps arbitrary: g)
  case (Cons p ps)
  then obtain g1 where 1: "open_guess g p = Inr g1" and 2: "open_all g1 ps = Inr g'"
    by (auto split: sum.splits)
  from Cons.IH [OF 2] open_guess_layout [OF 1] show ?case by simp
qed simp

lemma play_layout: "play g inp = Inr (out, g') \<Longrightarrow> layout g' = layout g"
proof (induction g inp rule: play.induct)
  case (1 g inp)
  show ?case
  proof (cases "has_unopened_non_mines g")
    case False
    with "1.prems" show ?thesis by (simp add: play.simps [of g inp])
  next
    case True
    note eq = "1.prems" [unfolded play.simps [of g inp]]
    from eq True obtain p inp' where gu: "get_user_guess g inp = Inr (p, inp')"
      by (cases "get_user_guess g inp") auto
    from eq True gu obtain guessed where hg: "has_guessed_mine g p = Inr guessed"
      by (cases "has_guessed_mine g p") auto
    show ?thesis
    proof (cases guessed)
      case True
      with eq \<open>has_unopened_non_mines g\<close> gu hg show ?thesis by simp
    next
      case False
      with eq True gu hg obtain g1 where og: "open_guess g p = Inr g1"
        and pl: "play g1 inp' = Inr (out, g')"
        by (cases "open_guess g p") auto
      from "1.IH" [OF True gu refl hg False og pl] open_guess_layout [OF og]
      show ?thesis by simp
    qed
  qed
qed

lemma layout_fields:
  assumes "layout g' = layout g"
  shows "width g' = width g" "height g' = height g" "mine_count g' = mine_count g"
    "map (map has_mine) (cells g') = map (map has_mine) (cells g)"
    "map (map adjacent_mines_count) (cells g') = map (map adjacent_mines_count) (cells g)"
proof -
  let ?h = "\<lambda>c. (has_mine c, adjacent_mines_count c)"
  from assms show "width g' = width g" "height g' = height g" "mine_count g' = mine_count g"
    by (simp_all add: layout_def)
  from assms have m: "map (map ?h) (cells g') = map (map ?h) (cells g)"
    by (simp add: layout_def)
  have "map (map has_mine) cs = map (map fst) (map (map ?h) cs)" for cs :: "cell list list"
    by (simp add: comp_def)
  with m show "map (map has_mine) (cells g') = map (map has_mine) (cells g)" by metis
  have "map (map adjacent_mines_count) cs = map (map snd) (map (map ?h) cs)" for cs :: "cell list list"
    by (simp add: comp_def)
  with m show "map (map adjacent_mines_count) (cells g') = map (map adjacent_mines_count) (cells g)"
    by metis
qed

lemma mines_hold_zero_alt:
  "mines_hold_zero g \<longleftrightarrow>
     (\<forall>row \<in> set (map (map (\<lambda>c. (has_mine c, adjacent_mines_count c))) (cells g)).
        \<forall>x \<in> set row. fst x \<longrightarrow> snd x = 0)"
  by (auto simp: mines_hold_zero_def)

lemma mines_hold_zero_layout:
  "layout g' = layout g \<Longrightarrow> mines_hold_zero g' = mines_hold_zero g"
  unfolding mines_hold_zero_alt by (simp add: layout_def)

lemma rectangular_alt:
  "rectangular g \<longleftrightarrow>
     length (map (map (\<lambda>c. (has_mine c, adjacent_mines_count c))) (cells g)) = nat (height g) \<and>
     (\<forall>row \<in> set (map (map (\<lambda>c. (has_mine c, adjacent_mines_count c))) (cells g)).
        length row = nat (width g))"
  by (auto simp: rectangular_def)

lemma rectangular_layout:
  "layout g' = layout g \<Longrightarrow> rectangular g' = rectangular g"
  unfolding rectangular_alt by (simp add: layout_def)

lemma Grid_Inr_D:
  assumes "Grid rs w h = Inr g"
  obtains ms where
    "g = (empty_grid w h)\<lparr>cells := tabulate h w (counted (empty_grid w h) ms)\<rparr>"
proof (cases "random_sample rs (generate_grid_coordinate_positions (empty_grid w h))
                ((w * h) div 4)")
  case (Inl e)
  from Grid_Inl [OF this] assms show thesis by simp
next
  case (Inr ms)
  from Grid_Inr [OF this] assms that show thesis by simp
qed

lemma in_tabulate:
  assumes "row \<in> set (tabulate h w F)" "x \<in> set row"
  obtains p where "x = F p"
  using assms by (auto simp: tabulate_def)

lemma Grid_mines_hold_zero: "Grid rs w h = Inr g \<Longrightarrow> mines_hold_zero g"
proof -
  assume "Grid rs w h = Inr g"
  then obtain ms where
    g: "g = (empty_grid w h)\<lparr>cells := tabulate h w (counted (empty_grid w h) ms)\<rparr>"
    by (rule Grid_Inr_D)
  show ?thesis
    unfolding mines_hold_zero_def g
    by (auto elim!: in_tabulate simp: count_counted)
qed

lemma Grid_rectangular: "Grid rs w h = Inr g \<Longrightarrow> rectangular g"
proof -
  assume "Grid rs w h = Inr g"
  then obtain ms where
    g: "g = (empty_grid w h)\<lparr>cells := tabulate h w (counted (empty_grid w h) ms)\<rparr>"
    by (rule Grid_Inr_D)
  show ?thesis
    unfolding rectangular_def g by (auto simp: tabulate_def)
qed

lemma py_norm_index_wrap:
  assumes "- int n \<le> i" "i < int n"
  shows "py_norm_index n i = Inr (nat (i mod int n))"
proof (cases "i < 0")
  case True
  have "i mod int n = (i + int n) mod int n" by simp
  also have "\<dots> = i + int n" using assms True by (intro mod_pos_pos_trivial) auto
  finally have m: "i mod int n = int n + i" by (simp add: add.commute)
  have "py_norm_index n i = Inr (nat (int n + i))"
    using True assms by (simp add: py_norm_index_def)
  then show ?thesis by (simp only: m)
next
  case False
  with assms show ?thesis by (simp add: py_norm_index_def)
qed

lemma get_cell_wrap:
  assumes "rectangular g" "- height g \<le> r" "r < height g" "- width g \<le> c" "c < width g"
  shows "get_cell g r c = Inr (cells g ! nat (r mod height g) ! nat (c mod width g))"
proof -
  from assms have h: "int (length (cells g)) = height g" by (simp add: rectangular_def)
  have i: "py_norm_index (length (cells g)) r = Inr (nat (r mod height g))"
    using py_norm_index_wrap [of "length (cells g)" r] assms(2,3) h by simp
  from py_norm_index_less [OF i] have "cells g ! nat (r mod height g) \<in> set (cells g)"
    by simp
  with assms have w: "int (length (cells g ! nat (r mod height g))) = width g"
    by (simp add: rectangular_def)
  have j: "py_norm_index (length (cells g ! nat (r mod height g))) c = Inr (nat (c mod width g))"
    using py_norm_index_wrap [of "length (cells g ! nat (r mod height g))" c] assms(4,5) w
    by simp
  show ?thesis by (simp add: get_cell_def py_getitem_def i j)
qed

lemma get_user_guess_unopened:
  "get_user_guess g inp = Inr (p, rest) \<Longrightarrow> is_cell_opened g (fst p) (snd p) = Inr False"
proof (induction g inp rule: get_user_guess.induct)
  case (1 g inp)
  note eq = "1.prems" [unfolded get_user_guess.simps [of g inp] Let_def]
  from eq obtain c inp1 where c: "get_valid_coordinate (width g - 1) inp = Inr (c, inp1)"
    by (cases "get_valid_coordinate (width g - 1) inp") auto
  from eq c obtain r inp2 where r: "get_valid_coordinate (height g - 1) inp1 = Inr (r, inp2)"
    by (cases "get_valid_coordinate (height g - 1) inp1") auto
  from eq c r obtain opened where o: "is_cell_opened g r c = Inr opened"
    by (cases "is_cell_opened g r c") auto
  show ?case
  proof (cases opened)
    case True
    with eq c r o have "get_user_guess g inp2 = Inr (p, rest)" by simp
    with "1.IH" [OF refl refl c refl r refl o True] show ?thesis by simp
  next
    case False
    with eq c r o have "p = (r, c)" by simp
    with o False show ?thesis by simp
  qed
qed

section \<open>The continuation predicate\<close>

text \<open>
  Claim C4. \<open>has_unopened_non_mines\<close> is true exactly when some cell of the matrix has
  neither a mine nor been opened; so it is false exactly when every cell without a mine
  is open.
\<close>

theorem has_unopened_non_mines_iff:
  "(has_unopened_non_mines g \<longleftrightarrow>
      (\<exists>row \<in> set (cells g). \<exists>c \<in> set row. has_mine c = False \<and> is_open c = False)) \<and>
   (\<not> has_unopened_non_mines g \<longleftrightarrow>
      (\<forall>row \<in> set (cells g). \<forall>c \<in> set row. has_mine c = False \<longrightarrow> is_open c = True))"
  unfolding has_unopened_non_mines_def scan_rows_iff unopened_non_mine_def by auto

theorem has_unopened_non_mines_iff_witness:
  "has_unopened_non_mines fresh_2x2 \<and> \<not> has_unopened_non_mines cleared_2x2"
  using has_unopened_non_mines_iff [of fresh_2x2] has_unopened_non_mines_iff [of cleared_2x2]
  by (simp add: fresh_2x2_def cleared_2x2_def Cell_def Cell_open_def)

section \<open>Opening a cell twice\<close>

text \<open>
  Claim C8. At a position inside the matrix, opening succeeds, and opening the same
  position again returns the very same grid; when the cell was open already, the first
  opening returns the grid unchanged too. So no \<open>has_mine\<close>, \<open>adjacent_mines_count\<close>
  or \<open>is_open\<close> of any cell differs after the second opening.
\<close>

theorem open_idempotent:
  assumes "0 \<le> r" and "r < int (length (cells g))"
    and "0 \<le> c" and "c < int (length (cells g ! nat r))"
  shows "\<exists>g'. open_guess g (r, c) = Inr g' \<and> open_guess g' (r, c) = Inr g' \<and>
           (is_open (cells g ! nat r ! nat c) \<longrightarrow> g' = g)"
proof -
  let ?i = "nat r" and ?j = "nat c"
  let ?g' = "g\<lparr>cells := (cells g)[?i := (cells g ! ?i)[?j := Cell_open (cells g ! ?i ! ?j)]]\<rparr>"
  from assms have i: "?i < length (cells g)" and j: "?j < length (cells g ! ?i)" by auto
  have 1: "open_guess g (r, c) = Inr ?g'"
    using assms by (simp add: open_guess_def modify_cell_def py_norm_index_nonneg)
  have 2: "open_guess ?g' (r, c) = Inr ?g'"
    using assms i j
    by (simp add: open_guess_def modify_cell_def py_norm_index_nonneg Cell_open_idem)
  have 3: "?g' = g" if "is_open (cells g ! ?i ! ?j)"
    using that by (simp add: Cell_open_id)
  from 1 2 3 show ?thesis by blast
qed

theorem open_idempotent_witness:
  "open_guess cleared_2x2 (1, 0) = Inr cleared_2x2 \<and>
   (\<exists>g'. open_guess fresh_2x2 (1, 0) = Inr g' \<and> open_guess g' (1, 0) = Inr g' \<and>
      g' \<noteq> fresh_2x2)"
proof -
  have a: "(0::int) \<le> 1" "(1::int) < int (length (cells cleared_2x2))"
    "(0::int) \<le> 0" "(0::int) < int (length (cells cleared_2x2 ! nat 1))"
    "is_open (cells cleared_2x2 ! nat 1 ! nat 0)"
    by (simp_all add: cleared_2x2_def Cell_open_def)
  have b: "(1::int) < int (length (cells fresh_2x2))"
    "(0::int) < int (length (cells fresh_2x2 ! nat 1))"
    by (simp_all add: fresh_2x2_def)
  from open_idempotent [OF a(1-4)] a(5)
  have 1: "open_guess cleared_2x2 (1, 0) = Inr cleared_2x2" by auto
  from open_idempotent [OF a(1) b(1) a(3) b(2)]
  obtain g' where g': "open_guess fresh_2x2 (1, 0) = Inr g'" "open_guess g' (1, 0) = Inr g'"
    by blast
  have "open_guess fresh_2x2 (1, 0) \<noteq> Inr fresh_2x2"
    by (simp add: open_guess_def modify_cell_def py_norm_index_def fresh_2x2_def
        Cell_def Cell_open_def)
  with g' have "g' \<noteq> fresh_2x2" by auto
  with 1 g' show ?thesis by blast
qed

section \<open>Construction: mines\<close>

text \<open>
  Claim C1. For positive \<open>width\<close> and \<open>height\<close> and every state of the random
  generator, \<open>Grid\<close> returns a grid; exactly \<open>floor (width * height / 4)\<close> cells of its
  matrix have \<open>has_mine\<close>; the list \<open>ms\<close> that \<open>generate_mine_positions\<close> sampled
  has that length, has no position twice and is drawn from the \<open>width * height\<close>
  coordinate positions; and the cells with a mine are exactly the cells at the positions
  of \<open>ms\<close>.
\<close>

theorem Grid_mine_count:
  assumes "0 < w" and "0 < h"
  shows "\<exists>g ms. Grid rs w h = Inr g \<and> width g = w \<and> height g = h \<and>
           mine_count g = (w * h) div 4 \<and>
           int (length (filter has_mine (concat (cells g)))) = (w * h) div 4 \<and>
           generate_mine_positions rs g (generate_grid_coordinate_positions g) = Inr ms \<and>
           int (length ms) = (w * h) div 4 \<and> distinct ms \<and>
           set ms \<subseteq> set (generate_grid_coordinate_positions g) \<and>
           int (length (generate_grid_coordinate_positions g)) = w * h \<and>
           (\<forall>r c. is_valid_position g r c \<longrightarrow>
              has_mine (cells g ! nat r ! nat c) = ((r, c) \<in> set ms))"
proof -
  let ?e = "empty_grid w h"
  let ?cps = "generate_grid_coordinate_positions ?e"
  let ?ms = "draw rs ?cps (nat ((w * h) div 4))"
  let ?g = "?e\<lparr>cells := tabulate h w (counted ?e ?ms)\<rparr>"
  note s = sample_positive [OF assms, of rs]
  have G: "Grid rs w h = Inr ?g" by (rule Grid_Inr [OF s(1)])
  have cps: "generate_grid_coordinate_positions ?g = ?cps"
    by (simp add: generate_grid_coordinate_positions_def)
  have d: "distinct ?ms" by (rule distinct_draw [OF distinct_coordinate_positions])
  have sub: "set ?ms \<subseteq> set ?cps" by (rule set_draw)
  have "concat (cells ?g) = map (counted ?e ?ms) ?cps"
    using concat_tabulate [of ?e] by simp
  then have "length (filter has_mine (concat (cells ?g))) =
             length (filter (\<lambda>p. p \<in> set ?ms) ?cps)"
    by (simp add: filter_map comp_def)
  also have "\<dots> = length ?ms"
    by (rule length_filter_member [OF distinct_coordinate_positions d sub])
  finally have n: "int (length (filter has_mine (concat (cells ?g)))) = (w * h) div 4"
    using s(2) by simp
  have gm: "generate_mine_positions rs ?g (generate_grid_coordinate_positions ?g) = Inr ?ms"
    using s(1) by (simp add: generate_mine_positions_def cps)
  have len: "int (length (generate_grid_coordinate_positions ?g)) = w * h"
    using assms by (simp add: cps length_coordinate_positions mult.commute)
  have at: "has_mine (cells ?g ! nat r ! nat c) = ((r, c) \<in> set ?ms)"
    if "is_valid_position ?g r c" for r c
    using that by (simp add: is_valid_position_def)
  from G n gm s(2) d sub len at show ?thesis
    by (intro exI [of _ ?g] exI [of _ ?ms]) (simp add: cps)
qed

theorem Grid_mine_count_witness:
  "\<exists>g ms. Grid [5] 2 2 = Inr g \<and> mine_count g = 1 \<and>
     length (filter has_mine (concat (cells g))) = 1 \<and> length ms = 1 \<and>
     generate_mine_positions [5] g (generate_grid_coordinate_positions g) = Inr ms"
proof -
  from Grid_mine_count [of 2 2 "[5]"]
  obtain g ms where "Grid [5] 2 2 = Inr g" "mine_count g = 2 * 2 div 4"
    "int (length (filter has_mine (concat (cells g)))) = 2 * 2 div 4"
    "generate_mine_positions [5] g (generate_grid_coordinate_positions g) = Inr ms"
    "int (length ms) = 2 * 2 div 4"
    by auto
  then show ?thesis by (intro exI [of _ g] exI [of _ ms]) simp
qed

section \<open>Construction: adjacent mine counts\<close>

text \<open>
  Claim C2. For positive \<open>width\<close> and \<open>height\<close>, \<open>Grid\<close> returns a grid in which
  every cell without a mine, at a position \<open>(r, c)\<close> of the grid, holds as
  \<open>adjacent_mines_count\<close> the number \<open>neighbouring_mines g r c\<close> of cells with a mine
  among its neighbours \<open>(r + dr, c + dc)\<close>, \<open>(dr, dc)\<close> one of the eight offsets other
  than \<open>(0, 0)\<close>, that lie inside the grid. Neighbours outside the grid are not read
  (the count clips at the edge), and construction raises no error.
\<close>

theorem Grid_adjacent_counts:
  assumes "0 < w" and "0 < h"
  shows "\<exists>g. Grid rs w h = Inr g \<and> width g = w \<and> height g = h \<and>
           (\<forall>r c. is_valid_position g r c \<and> \<not> has_mine (cells g ! nat r ! nat c) \<longrightarrow>
              adjacent_mines_count (cells g ! nat r ! nat c) = int (neighbouring_mines g r c))"
proof -
  let ?e = "empty_grid w h"
  let ?cps = "generate_grid_coordinate_positions ?e"
  let ?ms = "draw rs ?cps (nat ((w * h) div 4))"
  let ?g = "?e\<lparr>cells := tabulate h w (counted ?e ?ms)\<rparr>"
  let ?P = "\<lambda>q. is_valid_position ?e (fst q) (snd q) \<and> q \<in> set ?ms"
  note s = sample_positive [OF assms, of rs]
  have G: "Grid rs w h = Inr ?g" by (rule Grid_Inr [OF s(1)])
  have at: "cells ?g ! nat r ! nat c = counted ?e ?ms (r, c)"
    if "is_valid_position ?e r c" for r c
    using that by (simp add: is_valid_position_def)
  have nm: "neighbouring_mines ?g r c =
            length (filter ?P (map (\<lambda>(dr, dc). (r + dr, c + dc)) neighbour_offsets))" for r c
  proof -
    have "filter (\<lambda>(r', c'). has_mine (cells ?g ! nat r' ! nat c')) (in_bounds_neighbours ?g r c) =
          filter ?P (map (\<lambda>(dr, dc). (r + dr, c + dc)) neighbour_offsets)"
      unfolding in_bounds_neighbours_def filter_filter
      by (rule filter_cong [OF refl]) (auto simp: is_valid_position_def)
    then show ?thesis by (simp add: neighbouring_mines_def)
  qed
  have main: "adjacent_mines_count (cells ?g ! nat r ! nat c) = int (neighbouring_mines ?g r c)"
    if v: "is_valid_position ?g r c" and m: "\<not> has_mine (cells ?g ! nat r ! nat c)" for r c
  proof -
    from v have v': "is_valid_position ?e r c" by simp
    from m have notin: "(r, c) \<notin> set ?ms" unfolding at [OF v'] by simp
    from v' have "(r, c) \<in> valid_positions ?e" by (simp add: valid_positions_def)
    with notin have "adjacent_mines_count (cells ?g ! nat r ! nat c) =
                     block_count ?e (planted ?ms) (r, c)"
      unfolding at [OF v'] by (simp add: count_counted)
    also have "\<dots> = int (length (filter ?P (block r c)))"
      by (simp add: block_count_def)
    also have "filter ?P (block r c) =
               filter ?P (map (\<lambda>(dr, dc). (r + dr, c + dc)) neighbour_offsets)"
      by (rule block_neighbours) (simp add: notin)
    finally show ?thesis by (simp add: nm)
  qed
  from G main show ?thesis by (intro exI [of _ ?g]) simp
qed

theorem Grid_adjacent_counts_witness:
  "\<exists>g. Grid [5] 2 2 = Inr g \<and> is_valid_position g 0 0 \<and>
     \<not> has_mine (cells g ! nat 0 ! nat 0) \<and>
     adjacent_mines_count (cells g ! nat 0 ! nat 0) = 1 \<and> neighbouring_mines g 0 0 = 1"
proof -
  have "(0::int) < 2" by simp
  from Grid_adjacent_counts [OF this this, of "[5]"]
  obtain g where g: "Grid [5] 2 2 = Inr g"
    and all: "\<And>r c. is_valid_position g r c \<and> \<not> has_mine (cells g ! nat r ! nat c) \<Longrightarrow>
                adjacent_mines_count (cells g ! nat r ! nat c) = int (neighbouring_mines g r c)"
    by blast
  have "Grid [5] 2 2 = Inr fresh_2x2" unfolding fresh_2x2_def by code_simp
  with g have eq: "g = fresh_2x2" by simp
  have v: "is_valid_position g 0 0 \<and> \<not> has_mine (cells g ! nat 0 ! nat 0)"
    by (simp add: eq fresh_2x2_def is_valid_position_def Cell_def)
  have n: "neighbouring_mines g 0 0 = 1" unfolding eq by code_simp
  from all [OF v] n v g show ?thesis by (intro exI [of _ g]) simp
qed

section \<open>Construction with a dimension that is not positive\<close>

text \<open>
  Claim C3 says that \<open>Grid\<close> fails with an InvalidDimension error whenever
  \<open>width \<le> 0\<close> or \<open>height \<le> 0\<close>. The constructor checks nothing: with a zero
  width the ranges are empty, no mine is asked for and an empty grid is returned.
\<close>

theorem Grid_zero_width_constructed:
  "Grid [] 0 5 = Inr \<lparr>width = 0, height = 5, cells = [[], [], [], [], []], mine_count = 0\<rparr> \<and>
   \<not> (\<forall>rs w h. w \<le> 0 \<or> h \<le> 0 \<longrightarrow> (\<exists>e. Grid rs w h = Inl e))"
proof -
  have g: "Grid [] 0 5 =
           Inr \<lparr>width = 0, height = 5, cells = [[], [], [], [], []], mine_count = 0\<rparr>"
    by code_simp
  then have "\<not> (\<exists>e. Grid [] 0 5 = Inl e)" by simp
  then have "\<not> (\<forall>rs w h. w \<le> 0 \<or> h \<le> 0 \<longrightarrow> (\<exists>e. Grid rs w h = Inl e))"
    by (metis order_refl)
  with g show ?thesis by simp
qed

text \<open>
  Claim C3 as amended. When \<open>width \<le> 0\<close> or \<open>height \<le> 0\<close> there is no coordinate
  position, and \<open>random.sample\<close> decides: for \<open>0 \<le> width * height < 4\<close> (a zero
  dimension, or two negative ones with a product below 4) no mine is asked for and
  construction succeeds with a grid without cells; otherwise the sample size
  \<open>floor (width * height / 4)\<close> is negative or larger than the empty population and
  construction fails with ValueError. ValueError is the only error construction raises,
  and it is never raised for positive dimensions.
\<close>

theorem Grid_nonpositive:
  "(w \<le> 0 \<or> h \<le> 0 \<longrightarrow>
      Grid rs w h =
        (if 0 \<le> w * h \<and> w * h < 4
         then Inr \<lparr>width = w, height = h, cells = replicate (nat h) [], mine_count = 0\<rparr>
         else Inl ValueError)) \<and>
   (\<forall>e. Grid rs w h = Inl e \<longrightarrow> e = ValueError \<and> (w \<le> 0 \<or> h \<le> 0))"
proof -
  have np: "Grid rs w h =
        (if 0 \<le> w * h \<and> w * h < 4
         then Inr \<lparr>width = w, height = h, cells = replicate (nat h) [], mine_count = 0\<rparr>
         else Inl ValueError)" if d: "w \<le> 0 \<or> h \<le> 0"
  proof (cases "0 \<le> w * h \<and> w * h < 4")
    case True
    then have k: "(w * h) div 4 = 0" by simp
    have "random_sample rs (generate_grid_coordinate_positions (empty_grid w h)) ((w * h) div 4)
          = Inr []"
      by (simp add: coordinate_positions_empty [OF d] k random_sample_def)
    from Grid_Inr [OF this] True k show ?thesis
      by (simp add: tabulate_no_cells [OF d] empty_grid_def)
  next
    case False
    then have k: "(w * h) div 4 \<noteq> 0" by (simp add: div_eq_0_iff) linarith
    have "random_sample rs (generate_grid_coordinate_positions (empty_grid w h)) ((w * h) div 4)
          = Inl ValueError"
      using k by (simp add: coordinate_positions_empty [OF d] random_sample_def)
    from Grid_Inl [OF this] False show ?thesis by simp
  qed
  have "e = ValueError \<and> (w \<le> 0 \<or> h \<le> 0)" if e: "Grid rs w h = Inl e" for e
  proof (cases "w \<le> 0 \<or> h \<le> 0")
    case True
    with np e show ?thesis by (auto split: if_splits)
  next
    case False
    then have "0 < w" "0 < h" by auto
    from Grid_positive [OF this, of rs] e show ?thesis by auto
  qed
  with np show ?thesis by blast
qed

theorem Grid_nonpositive_witness:
  "Grid [] (- 1) 3 = Inl ValueError \<and> Grid [] (- 2) (- 2) = Inl ValueError \<and>
   Grid [] (- 1) (- 3) = Inr \<lparr>width = - 1, height = - 3, cells = [], mine_count = 0\<rparr> \<and>
   Grid [] 0 2 = Inr \<lparr>width = 0, height = 2, cells = [[], []], mine_count = 0\<rparr>"
  using Grid_nonpositive [of "- 1" 3 "[]"] Grid_nonpositive [of "- 2" "- 2" "[]"]
    Grid_nonpositive [of "- 1" "- 3" "[]"] Grid_nonpositive [of 0 2 "[]"]
  by (simp add: numeral_2_eq_2)

section \<open>The 2x2 grid\<close>

text \<open>
  Claim C6. Whatever the random generator does, \<open>Grid 2 2\<close> returns a grid with
  \<open>mine_count = 1\<close> and four cells, exactly one of which has a mine, and each of the
  three cells without a mine has \<open>adjacent_mines_count = 1\<close>.
\<close>

theorem Grid_2x2:
  "\<exists>g. Grid rs 2 2 = Inr g \<and> mine_count g = 1 \<and> length (concat (cells g)) = 4 \<and>
     length (filter has_mine (concat (cells g))) = 1 \<and>
     length (filter (\<lambda>c. \<not> has_mine c) (concat (cells g))) = 3 \<and>
     (\<forall>c \<in> set (concat (cells g)). \<not> has_mine c \<longrightarrow> adjacent_mines_count c = 1)"
proof -
  from Grid_2x2_tape [of rs] obtain j where j: "j < 4" and eq: "Grid rs 2 2 = Grid [j] 2 2"
    by blast
  from below_four [OF j] show ?thesis
    unfolding eq by (elim disjE) (simp_all add: Grid_2x2_layouts Cell_def)
qed

theorem Grid_2x2_witness:
  "\<exists>g. Grid [7, 1] 2 2 = Inr g \<and> mine_count g = 1 \<and>
     length (filter has_mine (concat (cells g))) = 1 \<and>
     adjacent_mines_count (cells g ! 0 ! 0) = 1 \<and> has_mine (cells g ! 1 ! 1)"
proof -
  from Grid_2x2 [of "[7, 1]"] obtain g where g: "Grid [7, 1] 2 2 = Inr g"
    and p: "mine_count g = 1" "length (filter has_mine (concat (cells g))) = 1"
    by blast
  have "Grid [7, 1] 2 2 = Inr \<lparr>width = 2, height = 2,
      cells = [[Cell False 1, Cell False 1], [Cell False 1, Cell True 0]], mine_count = 1\<rparr>"
    by code_simp
  with g have "adjacent_mines_count (cells g ! 0 ! 0) = 1 \<and> has_mine (cells g ! 1 ! 1)"
    by (auto simp: Cell_def)
  with g p show ?thesis by blast
qed

section \<open>What the operations leave unchanged\<close>

text \<open>
  Claim C7. Opening the cell at a position \<open>(r, c)\<close> inside the matrix returns the grid
  in which that one cell has \<open>is_open = True\<close> and nothing else differs. Whatever grid
  \<open>g'\<close> one opening, a run of openings or a whole game \<open>play\<close> returns, its
  \<open>width\<close>, \<open>height\<close> and \<open>mine_count\<close> and every cell's \<open>has_mine\<close> and
  \<open>adjacent_mines_count\<close> are those of the grid it started from. The queries
  (\<open>has_unopened_non_mines\<close>, \<open>is_cell_opened\<close>, \<open>has_mine_at\<close>, \<open>Grid_print\<close>)
  assign nothing in the source and return no grid here.
\<close>

theorem open_changes_only_is_open:
  "(0 \<le> r \<and> r < int (length (cells g)) \<and> 0 \<le> c \<and> c < int (length (cells g ! nat r)) \<longrightarrow>
      open_guess g (r, c) =
        Inr (g\<lparr>cells := (cells g)[nat r := (cells g ! nat r)
                              [nat c := (cells g ! nat r ! nat c)\<lparr>is_open := True\<rparr>]]\<rparr>)) \<and>
   (open_guess g p = Inr g' \<or> open_all g ps = Inr g' \<or> play g inp = Inr (out, g') \<longrightarrow>
      width g' = width g \<and> height g' = height g \<and> mine_count g' = mine_count g \<and>
      map (map has_mine) (cells g') = map (map has_mine) (cells g) \<and>
      map (map adjacent_mines_count) (cells g') = map (map adjacent_mines_count) (cells g))"
proof -
  have a: "open_guess g (r, c) =
        Inr (g\<lparr>cells := (cells g)[nat r := (cells g ! nat r)
                              [nat c := (cells g ! nat r ! nat c)\<lparr>is_open := True\<rparr>]]\<rparr>)"
    if "0 \<le> r \<and> r < int (length (cells g)) \<and> 0 \<le> c \<and> c < int (length (cells g ! nat r))"
    using that by (simp add: open_guess_def modify_cell_def py_norm_index_nonneg Cell_open_def)
  have "layout g' = layout g"
    if "open_guess g p = Inr g' \<or> open_all g ps = Inr g' \<or> play g inp = Inr (out, g')"
    using that open_guess_layout open_all_layout play_layout by blast
  from layout_fields [OF this] a show ?thesis by blast
qed

theorem open_changes_only_is_open_witness:
  "open_guess fresh_2x2 (1, 0) =
     Inr \<lparr>width = 2, height = 2,
          cells = [[Cell False 1, Cell True 0], [Cell_open (Cell False 1), Cell False 1]],
          mine_count = 1\<rparr> \<and>
   play fresh_2x2 [Some 0, Some 0, Some 0, Some 1, Some 1, Some 1] = Inr (Won, cleared_2x2) \<and>
   map (map has_mine) (cells cleared_2x2) = map (map has_mine) (cells fresh_2x2) \<and>
   map (map adjacent_mines_count) (cells cleared_2x2) =
     map (map adjacent_mines_count) (cells fresh_2x2)"
proof -
  have p: "play fresh_2x2 [Some 0, Some 0, Some 0, Some 1, Some 1, Some 1] =
           Inr (Won, cleared_2x2)"
    unfolding fresh_2x2_def cleared_2x2_def by code_simp
  have b: "0 \<le> (1::int) \<and> 1 < int (length (cells fresh_2x2)) \<and> 0 \<le> (0::int) \<and>
           0 < int (length (cells fresh_2x2 ! nat 1))"
    by (simp add: fresh_2x2_def)
  from open_changes_only_is_open [of 1 fresh_2x2 0 "(0, 0)" cleared_2x2 "[]"
      "[Some 0, Some 0, Some 0, Some 1, Some 1, Some 1]" Won] p b
  show ?thesis by (simp add: fresh_2x2_def Cell_open_def Cell_def)
qed

section \<open>Mine cells hold the count zero\<close>

text \<open>
  Claim C9. In a grid that \<open>Grid\<close> returned, and in every grid reached from it by a run
  of openings or by a game, each cell with \<open>has_mine\<close> has \<open>adjacent_mines_count = 0\<close>;
  such a cell, once opened, is printed as \<open>0\<close>.
\<close>

theorem mine_cells_hold_zero:
  assumes "Grid rs w h = Inr g0"
    and "open_all g0 ps = Inr g \<or> play g0 inp = Inr (out, g)"
  shows "\<forall>row \<in> set (cells g). \<forall>c \<in> set row.
           has_mine c \<longrightarrow> adjacent_mines_count c = 0 \<and> Cell_str (Cell_open c) = ''0''"
proof -
  from assms(2) have "layout g = layout g0"
    using open_all_layout play_layout by blast
  from mines_hold_zero_layout [OF this] Grid_mines_hold_zero [OF assms(1)]
  have "mines_hold_zero g" by simp
  then show ?thesis by (auto simp: mines_hold_zero_def Cell_str_def Cell_open_def)
qed

theorem mine_cells_hold_zero_witness:
  "\<exists>g. Grid [5] 2 2 = Inr fresh_2x2 \<and> open_all fresh_2x2 [(1, 1), (0, 1)] = Inr g \<and>
     has_mine (cells g ! 0 ! 1) \<and> is_open (cells g ! 0 ! 1) \<and>
     adjacent_mines_count (cells g ! 0 ! 1) = 0 \<and> Cell_str (cells g ! 0 ! 1) = ''0''"
proof -
  let ?g = "\<lparr>width = 2, height = 2,
      cells = [[Cell False 1, Cell_open (Cell True 0)], [Cell False 1, Cell_open (Cell False 1)]],
      mine_count = 1\<rparr>"
  have G: "Grid [5] 2 2 = Inr fresh_2x2" unfolding fresh_2x2_def by code_simp
  have o: "open_all fresh_2x2 [(1, 1), (0, 1)] = Inr ?g" unfolding fresh_2x2_def by code_simp
  have "cells ?g ! 0 \<in> set (cells ?g)" "cells ?g ! 0 ! 1 \<in> set (cells ?g ! 0)"
    "has_mine (cells ?g ! 0 ! 1)"
    by (simp_all add: Cell_def Cell_open_def)
  with mine_cells_hold_zero [OF G disjI1 [OF o]]
  have "adjacent_mines_count (cells ?g ! 0 ! 1) = 0" by blast
  with G o show ?thesis
    by (intro exI [of _ ?g]) (simp add: Cell_def Cell_open_def Cell_str_def)
qed

section \<open>Guessing a mine\<close>

text \<open>
  Claim C5. When the loop is running (some safe cell is unopened), the player's guess is
  read, and the guessed cell has a mine, then \<open>play\<close> ends at once with \<open>Lost\<close> and
  returns the grid as it was: the guessed cell, which \<open>get_user_guess\<close> only accepts
  unopened, is still unopened.
\<close>

theorem guessed_mine_loses:
  assumes "has_unopened_non_mines g"
    and "get_user_guess g inp = Inr (guess, rest)"
    and "has_mine_at g guess = Inr True"
  shows "play g inp = Inr (Lost, g) \<and> is_cell_opened g (fst guess) (snd guess) = Inr False"
  using assms get_user_guess_unopened [OF assms(2)]
  by (simp add: play.simps [of g inp] has_guessed_mine_def)

theorem guessed_mine_loses_witness:
  "has_unopened_non_mines fresh_2x2 \<and>
   get_user_guess fresh_2x2 [None, Some 7, Some 1, Some 0, Some 0] = Inr ((0, 1), [Some 0]) \<and>
   has_mine_at fresh_2x2 (0, 1) = Inr True \<and>
   play fresh_2x2 [None, Some 7, Some 1, Some 0, Some 0] = Inr (Lost, fresh_2x2) \<and>
   is_cell_opened fresh_2x2 0 1 = Inr False"
proof -
  have a: "has_unopened_non_mines fresh_2x2"
    unfolding fresh_2x2_def by code_simp
  have b: "get_user_guess fresh_2x2 [None, Some 7, Some 1, Some 0, Some 0] =
           Inr ((0, 1), [Some 0])"
    unfolding fresh_2x2_def by code_simp
  have c: "has_mine_at fresh_2x2 (0, 1) = Inr True"
    unfolding fresh_2x2_def by code_simp
  from guessed_mine_loses [OF a b c] a b c show ?thesis by simp
qed

section \<open>Negative indices\<close>

text \<open>
  Claim C10. In every grid that construction and openings can produce, the queries
  \<open>is_cell_opened\<close> and \<open>has_mine_at\<close> accept a row index from \<open>-height\<close> up to
  \<open>height - 1\<close> and a column index from \<open>-width\<close> up to \<open>width - 1\<close>: they raise
  nothing and answer for the cell at \<open>(row mod height, col mod width)\<close>, so a negative
  index in that range silently wraps around to the far edge.
\<close>

theorem negative_index_wraps:
  assumes "Grid rs w h = Inr g0" and "open_all g0 ps = Inr g"
    and "- height g \<le> r" and "r < height g" and "- width g \<le> c" and "c < width g"
  shows "is_cell_opened g r c =
           Inr (is_open (cells g ! nat (r mod height g) ! nat (c mod width g))) \<and>
         has_mine_at g (r, c) =
           Inr (has_mine (cells g ! nat (r mod height g) ! nat (c mod width g)))"
proof -
  from rectangular_layout [OF open_all_layout [OF assms(2)]] Grid_rectangular [OF assms(1)]
    layout_fields(1,2) [OF open_all_layout [OF assms(2)]]
  have "rectangular g" by simp
  from get_cell_wrap [OF this assms(3-6)] show ?thesis
    by (simp add: is_cell_opened_def has_mine_at_def)
qed

theorem negative_index_wraps_witness:
  "\<exists>g. Grid [5] 2 2 = Inr fresh_2x2 \<and> open_all fresh_2x2 [(1, 0)] = Inr g \<and>
     is_cell_opened g (- 1) (- 2) = Inr True \<and> is_cell_opened g 1 0 = Inr True \<and>
     has_mine_at g (- 2, - 1) = Inr True \<and> has_mine_at g (0, 1) = Inr True \<and>
     has_mine_at g (0, - 1) = Inr True"
proof -
  let ?g = "\<lparr>width = 2, height = 2,
      cells = [[Cell False 1, Cell True 0], [Cell_open (Cell False 1), Cell False 1]],
      mine_count = 1\<rparr>"
  have G: "Grid [5] 2 2 = Inr fresh_2x2" unfolding fresh_2x2_def by code_simp
  have o: "open_all fresh_2x2 [(1, 0)] = Inr ?g" unfolding fresh_2x2_def by code_simp
  note w = negative_index_wraps [OF G o]
  have "is_cell_opened ?g (- 1) (- 2) = Inr True" "has_mine_at ?g (- 2, - 1) = Inr True"
    "has_mine_at ?g (0, - 1) = Inr True" "is_cell_opened ?g 1 0 = Inr True"
    "has_mine_at ?g (0, 1) = Inr True"
    using w [of "- 1" "- 2"] w [of "- 2" "- 1"] w [of 0 "- 1"] w [of 1 0] w [of 0 1]
    by (simp_all add: Cell_def Cell_open_def)
  with G o show ?thesis by (intro exI [of _ ?g]) simp
qed

end
